theory Spec2Isabelle
  imports Complex_Main "HOL-Library.AList"
begin

section \<open>Data model\<close>

subsection \<open>Python exceptions\<close>

text \<open>
  The exceptions the program raises or lets through. \<open>FileNotFoundError\<close> is re-raised
  unchanged by \<open>load_graph_data\<close>; every other exception is wrapped into a
  \<open>ValueError\<close> whose message starts with \<open>Error loading graph data: \<close>.
  \<open>exc_str\<close> is Python's \<open>str(e)\<close>.
\<close>

datatype py_exception =
    FileNotFoundError string
  | ValueError string
  | KeyError string
  | OtherException string

fun exc_str :: "py_exception \<Rightarrow> string" where
  "exc_str (FileNotFoundError m) = m"
| "exc_str (ValueError m) = m"
| "exc_str (KeyError m) = m"
| "exc_str (OtherException m) = m"

subsection \<open>The data frame read from the CSV file\<close>

text \<open>
  A pandas \<open>DataFrame\<close> is column oriented: an ordered dictionary from column name to
  the column's values, all columns of one length. The cells of the two endpoint columns
  are station identifiers, of an arbitrary type \<open>'a\<close> with equality.
\<close>

type_synonym 'a dataframe = "(string \<times> 'a list) list"

definition df_columns :: "'a dataframe \<Rightarrow> string list" where
  "df_columns df = map fst df"

text \<open>\<open>df[name]\<close>: the column, or \<open>KeyError\<close> when there is none of that name.\<close>

definition df_getitem :: "'a dataframe \<Rightarrow> string \<Rightarrow> py_exception + 'a list" where
  "df_getitem df name =
     (case map_of df name of None \<Rightarrow> Inl (KeyError name) | Some col \<Rightarrow> Inr col)"

text \<open>
  What \<open>pd.read_csv(filepath, nrows=n)\<close> finds at a path: no file, a file that pandas
  cannot parse (it raises with a message), or a table. \<open>nrows\<close> keeps the first \<open>n\<close>
  data records of every column.
\<close>

datatype 'a csv_file = NoFile | Unparsable string | Table "'a dataframe"

type_synonym 'a filesystem = "string \<Rightarrow> 'a csv_file"

definition read_csv :: "'a filesystem \<Rightarrow> string \<Rightarrow> nat \<Rightarrow> py_exception + 'a dataframe" where
  "read_csv fs filepath nrows =
     (case fs filepath of
        NoFile \<Rightarrow> Inl (FileNotFoundError filepath)
      | Unparsable msg \<Rightarrow> Inl (OtherException msg)
      | Table df \<Rightarrow> Inr (map (\<lambda>(name, col). (name, take nrows col)) df))"

subsection \<open>The graph: \<open>networkx.Graph\<close>\<close>

text \<open>
  \<open>nx.Graph\<close> keeps a dictionary of nodes (\<open>_node\<close>, in insertion order) and a
  dictionary of dictionaries \<open>_adj[u][v]\<close> holding the attribute dictionary of the edge
  between \<open>u\<close> and \<open>v\<close>. Dictionaries are association lists with distinct keys, in
  insertion order; \<open>AList.update\<close> overwrites in place or appends, as a Python
  dictionary does.
\<close>

type_synonym attrs = "(string \<times> real) list"

record 'a graph =
  g_node :: "'a list"
  g_adj :: "('a \<times> ('a \<times> attrs) list) list"

definition empty_graph :: "'a graph" where
  "empty_graph = \<lparr>g_node = [], g_adj = []\<rparr>"

text \<open>The first half of \<open>add_edge\<close>: a node not yet known gets an empty adjacency.\<close>

definition add_node_if_absent :: "'a \<Rightarrow> 'a graph \<Rightarrow> 'a graph" where
  "add_node_if_absent u G =
     (if u \<in> set (g_node G) then G
      else G\<lparr>g_node := g_node G @ [u], g_adj := g_adj G @ [(u, [])]\<rparr>)"

definition neighbors :: "'a graph \<Rightarrow> 'a \<Rightarrow> ('a \<times> attrs) list" where
  "neighbors G u = (case map_of (g_adj G) u of None \<Rightarrow> [] | Some nbrs \<Rightarrow> nbrs)"

text \<open>\<open>G.get_edge_data(u, v)\<close>: the attribute dictionary of the edge, if there is one.\<close>

definition get_edge_data :: "'a graph \<Rightarrow> 'a \<Rightarrow> 'a \<Rightarrow> attrs option" where
  "get_edge_data G u v = map_of (neighbors G u) v"

definition has_edge :: "'a graph \<Rightarrow> 'a \<Rightarrow> 'a \<Rightarrow> bool" where
  "has_edge G u v = (get_edge_data G u v \<noteq> None)"

text \<open>
  \<open>_adj[u][v] = datadict\<close>.
\<close>

definition set_adj :: "'a \<Rightarrow> 'a \<Rightarrow> attrs \<Rightarrow> 'a graph \<Rightarrow> 'a graph" where
  "set_adj u v dd G =
     G\<lparr>g_adj := AList.update u (AList.update v dd (neighbors G u)) (g_adj G)\<rparr>"

text \<open>
  \<open>add_edges_from\<close> on a pair \<open>(u, v)\<close> with no attributes: both nodes are added when
  absent, the edge's attribute dictionary is the one already there or a new empty one, it
  is updated with the (empty) attributes of the call and stored under both directions.
\<close>

definition add_edge :: "'a \<Rightarrow> 'a \<Rightarrow> 'a graph \<Rightarrow> 'a graph" where
  "add_edge u v G =
     (let G1 = add_node_if_absent u G;
          G2 = add_node_if_absent v G1;
          datadict = (case get_edge_data G2 u v of None \<Rightarrow> [] | Some dd \<Rightarrow> dd)
      in set_adj v u datadict (set_adj u v datadict G2))"

fun add_edges_from :: "('a \<times> 'a) list \<Rightarrow> 'a graph \<Rightarrow> 'a graph" where
  "add_edges_from [] G = G"
| "add_edges_from ((u, v) # es) G = add_edges_from es (add_edge u v G)"

text \<open>
  \<open>nx.from_pandas_edgelist(df, source, target)\<close> with \<open>edge_attr=None\<close> and the default
  \<open>create_using\<close>: a new undirected \<open>Graph\<close> from \<open>zip(df[source], df[target])\<close>.
\<close>

definition from_pandas_edgelist ::
  "'a dataframe \<Rightarrow> string \<Rightarrow> string \<Rightarrow> py_exception + 'a graph" where
  "from_pandas_edgelist df source target =
     (case df_getitem df source of
        Inl e \<Rightarrow> Inl e
      | Inr srcs \<Rightarrow>
          (case df_getitem df target of
             Inl e \<Rightarrow> Inl e
           | Inr tgts \<Rightarrow> Inr (add_edges_from (zip srcs tgts) empty_graph)))"

text \<open>
  The weight the Louvain library reads off an edge: \<open>datas.get('weight', 1)\<close>.
\<close>

definition edge_weight :: "attrs \<Rightarrow> real" where
  "edge_weight dd = (case map_of dd ''weight'' of None \<Rightarrow> 1 | Some w \<Rightarrow> w)"

section \<open>Graph construction: \<open>load_graph_data\<close>\<close>

definition required_columns :: "string list" where
  "required_columns = [''departure_id'', ''return_id'']"

definition missing_columns_message :: string where
  "missing_columns_message = ''CSV must contain columns: ['departure_id', 'return_id']''"

definition wrap_error :: "py_exception \<Rightarrow> py_exception" where
  "wrap_error e =
     (case e of
        FileNotFoundError m \<Rightarrow> FileNotFoundError m
      | _ \<Rightarrow> ValueError (''Error loading graph data: '' @ exc_str e))"

definition load_graph_data :: "'a filesystem \<Rightarrow> string \<Rightarrow> py_exception + 'a graph" where
  "load_graph_data fs filepath =
     (case read_csv fs filepath 1000 of
        Inl e \<Rightarrow> Inl (wrap_error e)
      | Inr df \<Rightarrow>
          if \<not> list_all (\<lambda>col. col \<in> set (df_columns df)) required_columns
          then Inl (wrap_error (ValueError missing_columns_message))
          else (case from_pandas_edgelist df ''departure_id'' ''return_id'' of
                  Inl e \<Rightarrow> Inl (wrap_error e)
                | Inr G \<Rightarrow> Inr G))"

section \<open>Analysis: \<open>detect_communities\<close>\<close>

text \<open>
  The Louvain optimizer and the modularity evaluator are the two functions of the
  \<open>community_louvain\<close> package that the program calls. They are parameters of the model;
  each may raise. A partition is the dictionary from node to community id that
  \<open>best_partition\<close> returns.
\<close>

type_synonym 'a partition = "('a \<times> int) list"

record 'a community_louvain =
  best_partition :: "'a graph \<Rightarrow> py_exception + 'a partition"
  modularity :: "'a partition \<Rightarrow> 'a graph \<Rightarrow> py_exception + real"

text \<open>The calls made to the package, in order: the effect \<open>detect_communities\<close> has.\<close>

datatype 'a lib_call =
    Call_best_partition "'a graph"
  | Call_modularity "'a partition" "'a graph"

record analysis_result =
  modularity_score :: real
  total_communities_detected :: int
  total_nodes :: int

definition empty_result :: analysis_result where
  "empty_result =
     \<lparr>modularity_score = 0, total_communities_detected = 0, total_nodes = 0\<rparr>"

text \<open>
  \<open>not G\<close> is true for \<open>None\<close> and for a graph of length zero (\<open>Graph.__len__\<close> is the
  number of nodes). \<open>len(set(partition.values()))\<close> is the length of the values with
  duplicates removed.
\<close>

definition detect_communities ::
  "'a community_louvain \<Rightarrow> 'a graph option \<Rightarrow>
     'a lib_call list \<times> (py_exception + analysis_result)" where
  "detect_communities lib G' =
     (case G' of
        None \<Rightarrow> ([], Inr empty_result)
      | Some G \<Rightarrow>
          if length (g_node G) = 0 then ([], Inr empty_result)
          else
            (case best_partition lib G of
               Inl e \<Rightarrow> ([Call_best_partition G], Inl e)
             | Inr part \<Rightarrow>
                 (case modularity lib part G of
                    Inl e \<Rightarrow> ([Call_best_partition G, Call_modularity part G], Inl e)
                  | Inr modularity_value \<Rightarrow>
                      ([Call_best_partition G, Call_modularity part G],
                       Inr \<lparr>modularity_score = modularity_value,
                            total_communities_detected =
                              int (length (remdups (map snd part))),
                            total_nodes = int (length (g_node G))\<rparr>))))"

section \<open>The request handler: \<open>analyze_network\<close>\<close>

text \<open>
  \<open>graph_state\<close> is the process-wide dictionary; its entry \<open>G\<close> is a graph, \<open>None\<close>
  (loading failed) or absent. \<open>graph_state.get("G")\<close> is \<open>None\<close> in the last two cases.
\<close>

type_synonym 'a graph_state = "string \<rightharpoonup> 'a graph option"

datatype http_exception = HTTPException nat string

record analysis_response =
  status :: string
  algorithm :: string
  results :: analysis_result

definition state_get :: "'a graph_state \<Rightarrow> string \<Rightarrow> 'a graph option" where
  "state_get st key = (case st key of None \<Rightarrow> None | Some v \<Rightarrow> v)"

definition analyze_network ::
  "'a community_louvain \<Rightarrow> 'a graph_state \<Rightarrow> http_exception + analysis_response" where
  "analyze_network lib graph_state =
     (case state_get graph_state ''G'' of
        None \<Rightarrow> Inl (HTTPException 503 ''Graph data not available'')
      | Some G \<Rightarrow>
          (case snd (detect_communities lib (Some G)) of
             Inl e \<Rightarrow> Inl (HTTPException 500 (exc_str e))
           | Inr res \<Rightarrow>
               Inr \<lparr>status = ''success'', algorithm = ''Louvain'', results = res\<rparr>))"


section \<open>Concrete inputs\<close>

text \<open>Files used to evaluate the functions above on concrete records.\<close>

definition repeated_fs :: "int filesystem" where
  "repeated_fs =
     (\<lambda>p. if p = ''data/Databike.csv''
          then Table [(''departure_id'', [1, 1]), (''return_id'', [2, 2])]
          else NoFile)"

definition self_loop_fs :: "int filesystem" where
  "self_loop_fs =
     (\<lambda>p. if p = ''data/Databike.csv''
          then Table [(''departure_id'', [5]), (''return_id'', [5])]
          else NoFile)"

definition no_return_fs :: "int filesystem" where
  "no_return_fs =
     (\<lambda>p. if p = ''data/Databike.csv''
          then Table [(''departure_id'', [1, 2]), (''arrival_id'', [2, 3])]
          else NoFile)"

text \<open>A file of 1001 records, and the same file cut after its first 1000 records.\<close>

definition long_fs :: "int filesystem" where
  "long_fs =
     (\<lambda>p. if p = ''data/Databike.csv''
          then Table [(''departure_id'', replicate 1000 1 @ [7]),
                      (''return_id'', replicate 1000 2 @ [8])]
          else NoFile)"

definition cut_fs :: "int filesystem" where
  "cut_fs =
     (\<lambda>p. if p = ''data/Databike.csv''
          then Table [(''departure_id'', replicate 1000 1), (''return_id'', replicate 1000 2)]
          else NoFile)"

text \<open>The graph of the repository's test: a triangle on the nodes 1, 2 and 3.\<close>

definition triangle :: "int graph" where
  "triangle = add_edges_from [(1, 2), (2, 3), (3, 1)] empty_graph"

text \<open>A library that always raises, and one that answers with non-contiguous ids.\<close>

definition failing_lib :: "'a community_louvain" where
  "failing_lib =
     \<lparr>best_partition = (\<lambda>G. Inl (OtherException ''unavailable'')),
      modularity = (\<lambda>P G. Inl (OtherException ''unavailable''))\<rparr>"

definition gapped_lib :: "int community_louvain" where
  "gapped_lib =
     \<lparr>best_partition = (\<lambda>G. Inr [(1, 0), (2, 5), (3, 5)]),
      modularity = (\<lambda>P G. Inr 0)\<rparr>"

section \<open>Invariants of constructed graphs\<close>

text \<open>
  Two invariants of the graphs that \<open>add_edges_from\<close> builds from pairs: no edge
  carries an attribute, and no adjacency dictionary lists a neighbour twice.
\<close>

definition unweighted :: "'a graph \<Rightarrow> bool" where
  "unweighted G = (\<forall>x y. get_edge_data G x y = None \<or> get_edge_data G x y = Some [])"

definition simple_adj :: "'a graph \<Rightarrow> bool" where
  "simple_adj G = (\<forall>x. distinct (map fst (neighbors G x)))"

section \<open>The modularity evaluator\<close>

text \<open>
  The edges of a graph, each once, with the weight read off its attributes: the
  adjacency of every node in turn, skipping the neighbours already visited as nodes.
\<close>

fun edges_from :: "'a list \<Rightarrow> ('a \<times> ('a \<times> attrs) list) list \<Rightarrow> ('a \<times> 'a \<times> real) list" where
  "edges_from seen [] = []"
| "edges_from seen ((n, nbrs) # adj) =
     map (\<lambda>(nbr, dd). (n, nbr, edge_weight dd)) (filter (\<lambda>(nbr, dd). nbr \<notin> set seen) nbrs)
     @ edges_from (n # seen) adj"

definition edges :: "'a graph \<Rightarrow> ('a \<times> 'a \<times> real) list" where
  "edges G = edges_from [] (g_adj G)"

text \<open>
  Modelled from the spec: the modularity evaluator \<open>score(graph, partition)\<close>. The program
  calls \<open>community_louvain.modularity\<close>, a function of a package that is not among the
  sources; the definitions below follow sections 3 and 4.2 of the specification. The
  total edge weight \<open>m\<close> counts each edge once; the degree of a node is the sum of the
  weights of the edges incident to it; a community's internal weight counts each edge
  with both endpoints in the community once, and its total degree is the sum of the
  degrees of its members. The score is the community-aggregate form
  \<open>Q = \<Sum>c. internal_weight c / m - (total_degree c / (2 m))\<^sup>2\<close>, over the communities with
  at least one member.
\<close>

definition total_weight :: "'a graph \<Rightarrow> real" where
  "total_weight G = (\<Sum>(a, b, w) \<leftarrow> edges G. w)"

definition degree :: "'a graph \<Rightarrow> 'a \<Rightarrow> real" where
  "degree G v = (\<Sum>(a, b, w) \<leftarrow> edges G. (if a = v then w else 0) + (if b = v then w else 0))"

definition members :: "'a graph \<Rightarrow> 'a partition \<Rightarrow> int \<Rightarrow> 'a list" where
  "members G P c = filter (\<lambda>v. map_of P v = Some c) (g_node G)"

definition internal_weight :: "'a graph \<Rightarrow> 'a partition \<Rightarrow> int \<Rightarrow> real" where
  "internal_weight G P c =
     (\<Sum>(a, b, w) \<leftarrow> edges G. if map_of P a = Some c \<and> map_of P b = Some c then w else 0)"

definition total_degree :: "'a graph \<Rightarrow> 'a partition \<Rightarrow> int \<Rightarrow> real" where
  "total_degree G P c = (\<Sum>v \<leftarrow> members G P c. degree G v)"

definition communities :: "'a partition \<Rightarrow> int list" where
  "communities P = remdups (map snd P)"

definition score :: "'a graph \<Rightarrow> 'a partition \<Rightarrow> real" where
  "score G P =
     (let m = total_weight G
      in (\<Sum>c \<leftarrow> communities P.
            internal_weight G P c / m - (total_degree G P c / (2 * m))\<^sup>2))"

text \<open>
  A valid partition of a graph maps every node of the graph, and only those, to a
  community id, each node once. The singleton partition gives every node a community of
  its own.
\<close>

definition valid_partition :: "'a graph \<Rightarrow> 'a partition \<Rightarrow> bool" where
  "valid_partition G P = (distinct (map fst P) \<and> set (map fst P) = set (g_node G))"

definition singleton_partition :: "'a partition \<Rightarrow> bool" where
  "singleton_partition P = distinct (map snd P)"

text \<open>
  The invariants of the specification's graphs: node identifiers are unique and every
  edge has a positive weight. A graph is loop free when no edge joins a node to itself.
\<close>

definition positive_weights :: "'a graph \<Rightarrow> bool" where
  "positive_weights G = list_all (\<lambda>(a, b, w). 0 < w) (edges G)"

definition loop_free :: "'a graph \<Rightarrow> bool" where
  "loop_free G = list_all (\<lambda>(a, b, w). a \<noteq> b) (edges G)"

text \<open>
  Modelled from the spec: the failure modes of the evaluator, which belongs to the same
  absent package. Section 7 of the specification reserves an error for a total weight of
  0, where the score is undefined; a partition is a total mapping (section 3), so one
  that misses a node of the graph is rejected as the dictionary lookup of that node
  would be. Otherwise the result is the score.
\<close>

definition evaluate_modularity :: "'a partition \<Rightarrow> 'a graph \<Rightarrow> py_exception + real" where
  "evaluate_modularity P G =
     (if total_weight G = 0
      then Inl (ValueError ''A graph without link has an undefined modularity'')
      else if \<not> list_all (\<lambda>v. map_of P v \<noteq> None) (g_node G)
      then Inl (KeyError ''node missing from the partition'')
      else Inr (score G P))"

text \<open>A single edge between the nodes 1 and 2, and two nodes with a self-loop each.\<close>

definition single_edge :: "int graph" where
  "single_edge = add_edges_from [(1, 2)] empty_graph"

definition two_loops :: "int graph" where
  "two_loops = add_edges_from [(1, 1), (2, 2)] empty_graph"

text \<open>A graph of one node and no edge.\<close>

definition lone_station :: "int graph" where
  "lone_station = \<lparr>g_node = [1], g_adj = [(1, [])]\<rparr>"

section \<open>The Louvain optimizer\<close>

text \<open>
  Modelled from the spec: the Louvain optimizer \<open>LouvainOptimizer.run(graph)\<close>. The
  program calls \<open>community_louvain.best_partition\<close>, a function of a package that is not
  among the sources; the definitions below follow section 4.3 of the specification.

  The optimizer works on a working graph whose nodes are integers: at first the nodes of
  the original graph, numbered in ascending order, later the communities of the level
  before. A self-loop of a working graph is the internal weight of a super-node.
\<close>

record wgraph =
  w_nodes :: "int list"
  w_edges :: "(int \<times> int \<times> real) list"

definition w_total :: "wgraph \<Rightarrow> real" where
  "w_total g = (\<Sum>(a, b, w) \<leftarrow> w_edges g. w)"

definition w_degree :: "wgraph \<Rightarrow> int \<Rightarrow> real" where
  "w_degree g v =
     (\<Sum>(a, b, w) \<leftarrow> w_edges g. (if a = v then w else 0) + (if b = v then w else 0))"

text \<open>The assignment of a level: working node to community id.\<close>

type_synonym assignment = "(int \<times> int) list"

definition comm_of :: "assignment \<Rightarrow> int \<Rightarrow> int" where
  "comm_of cs v = (case map_of cs v of None \<Rightarrow> v | Some c \<Rightarrow> c)"

text \<open>Phase 1 starts with each node its own community.\<close>

definition singletons :: "int list \<Rightarrow> assignment" where
  "singletons vs = map (\<lambda>v. (v, v)) vs"

definition assign :: "int \<Rightarrow> int \<Rightarrow> assignment \<Rightarrow> assignment" where
  "assign v c cs = map (\<lambda>(u, c'). (u, if u = v then c else c')) cs"

text \<open>
  The gain of inserting \<open>v\<close> into the community \<open>c\<close>, relative to leaving \<open>v\<close> isolated:
  \<open>\<Sum>w(v, c) / m - degree(v) * total_degree(c) / (2 m\<^sup>2)\<close>, where \<open>v\<close> itself has been
  removed from the community it is in.
\<close>

definition links_to :: "wgraph \<Rightarrow> assignment \<Rightarrow> int \<Rightarrow> int \<Rightarrow> real" where
  "links_to g cs v c =
     (\<Sum>(a, b, w) \<leftarrow> w_edges g.
        (if a = v \<and> b \<noteq> v \<and> comm_of cs b = c then w else 0) +
        (if b = v \<and> a \<noteq> v \<and> comm_of cs a = c then w else 0))"

definition degree_without :: "wgraph \<Rightarrow> assignment \<Rightarrow> int \<Rightarrow> int \<Rightarrow> real" where
  "degree_without g cs v c =
     (\<Sum>u \<leftarrow> filter (\<lambda>u. u \<noteq> v \<and> comm_of cs u = c) (w_nodes g). w_degree g u)"

definition gain :: "wgraph \<Rightarrow> assignment \<Rightarrow> int \<Rightarrow> int \<Rightarrow> real" where
  "gain g cs v c =
     (let m = w_total g
      in links_to g cs v c / m - w_degree g v * degree_without g cs v c / (2 * m\<^sup>2))"

text \<open>
  The communities touched by at least one edge of \<open>v\<close>, and the candidates of a move:
  those and the community \<open>v\<close> is in, in ascending order of id.
\<close>

definition neighbour_communities :: "wgraph \<Rightarrow> assignment \<Rightarrow> int \<Rightarrow> int list" where
  "neighbour_communities g cs v =
     concat (map (\<lambda>(a, b, w).
                    (if a = v \<and> b \<noteq> v then [comm_of cs b] else []) @
                    (if b = v \<and> a \<noteq> v then [comm_of cs a] else []))
               (w_edges g))"

definition candidates :: "wgraph \<Rightarrow> assignment \<Rightarrow> int \<Rightarrow> int list" where
  "candidates g cs v = sort (remdups (comm_of cs v # neighbour_communities g cs v))"

text \<open>
  The candidate of strictly greatest gain; among equal gains the lowest id, which comes
  first in the ascending list.
\<close>

fun best_candidate :: "(int \<Rightarrow> real) \<Rightarrow> int list \<Rightarrow> (int \<times> real) option \<Rightarrow> (int \<times> real) option" where
  "best_candidate q [] best = best"
| "best_candidate q (c # cs) None = best_candidate q cs (Some (c, q c))"
| "best_candidate q (c # cs) (Some (b, qb)) =
     best_candidate q cs (if qb < q c then Some (c, q c) else Some (b, qb))"

text \<open>One node: it moves to the best candidate if that has a positive gain, else stays.\<close>

definition move_node :: "wgraph \<Rightarrow> int \<Rightarrow> assignment \<Rightarrow> assignment" where
  "move_node g v cs =
     (case best_candidate (gain g cs v) (candidates g cs v) None of
        None \<Rightarrow> cs
      | Some (c, q) \<Rightarrow> if 0 < q then assign v c cs else cs)"

fun one_pass :: "wgraph \<Rightarrow> int list \<Rightarrow> assignment \<Rightarrow> assignment" where
  "one_pass g [] cs = cs"
| "one_pass g (v # vs) cs = one_pass g vs (move_node g v cs)"

text \<open>
  Full passes until a pass makes no move, or the maximum pass count is reached. A node
  is visited once in a pass, so a pass made no move exactly when it left the assignment
  unchanged.
\<close>

definition max_passes :: nat where
  "max_passes = 100"

fun local_moving :: "nat \<Rightarrow> wgraph \<Rightarrow> int list \<Rightarrow> assignment \<Rightarrow> assignment" where
  "local_moving 0 g order cs = cs"
| "local_moving (Suc k) g order cs =
     (if one_pass g order cs = cs then cs
      else local_moving k g order (one_pass g order cs))"

text \<open>
  Phase 2: every surviving community becomes a super-node; the edges between two
  super-nodes are summed into one, the edges inside a community into its self-loop.
\<close>

definition renamed_edges :: "wgraph \<Rightarrow> assignment \<Rightarrow> (int \<times> int \<times> real) list" where
  "renamed_edges g cs =
     map (\<lambda>(a, b, w). (min (comm_of cs a) (comm_of cs b), max (comm_of cs a) (comm_of cs b), w))
       (w_edges g)"

definition aggregate :: "wgraph \<Rightarrow> assignment \<Rightarrow> wgraph" where
  "aggregate g cs =
     \<lparr>w_nodes = sort (remdups (map snd cs)),
      w_edges =
        map (\<lambda>(a, b). (a, b, \<Sum>(a', b', w) \<leftarrow> renamed_edges g cs. if a' = a \<and> b' = b then w else 0))
          (remdups (map (\<lambda>(a, b, w). (a, b)) (renamed_edges g cs)))\<rparr>"

text \<open>
  The outer loop. \<open>visit\<close> gives the order in which phase 1 visits the nodes of a working
  graph. \<open>membership\<close> records the super-node of every original node; a level that merged
  communities composes it with the level's assignment. The loop ends on a working graph
  of a single node, or when phase 1 merged nothing.
\<close>

definition level_assignment :: "(int list \<Rightarrow> int list) \<Rightarrow> wgraph \<Rightarrow> assignment" where
  "level_assignment visit g =
     local_moving max_passes g (visit (w_nodes g)) (singletons (w_nodes g))"

definition next_level :: "(int list \<Rightarrow> int list) \<Rightarrow> wgraph \<Rightarrow> wgraph" where
  "next_level visit g = aggregate g (level_assignment visit g)"

function louvain_levels ::
  "(int list \<Rightarrow> int list) \<Rightarrow> wgraph \<Rightarrow> ('a \<times> int) list \<Rightarrow> ('a \<times> int) list" where
  "louvain_levels visit g membership =
     (if length (w_nodes g) \<le> 1 then membership
      else if length (w_nodes (next_level visit g)) < length (w_nodes g)
      then louvain_levels visit (next_level visit g)
             (map (\<lambda>(v, s). (v, comm_of (level_assignment visit g) s)) membership)
      else membership)"
  by pat_completeness auto
termination
  by (relation "measure (\<lambda>(visit, g, membership). length (w_nodes g))") auto

declare louvain_levels.simps [simp del]

text \<open>
  The working graph of the original graph: its nodes in ascending order, numbered from
  0, and its edges between these numbers.
\<close>

definition node_ids :: "'a::linorder graph \<Rightarrow> ('a \<times> int) list" where
  "node_ids G = zip (sort (g_node G)) (map int [0..<length (g_node G)])"

definition initial_wgraph :: "'a::linorder graph \<Rightarrow> wgraph" where
  "initial_wgraph G =
     \<lparr>w_nodes = map snd (node_ids G),
      w_edges =
        List.map_filter
          (\<lambda>(a, b, w). case (map_of (node_ids G) a, map_of (node_ids G) b) of
                          (Some i, Some j) \<Rightarrow> Some (i, j, w)
                        | _ \<Rightarrow> None)
          (edges G)\<rparr>"

definition louvain_with_order :: "(int list \<Rightarrow> int list) \<Rightarrow> 'a::linorder graph \<Rightarrow> 'a partition" where
  "louvain_with_order visit G = louvain_levels visit (initial_wgraph G) (node_ids G)"

text \<open>
  The optimizer of the specification visits the nodes in ascending order of id, and
  fails on a graph with no node.
\<close>

definition ascending :: "int list \<Rightarrow> int list" where
  "ascending vs = sort vs"

definition descending :: "int list \<Rightarrow> int list" where
  "descending vs = rev (sort vs)"

definition louvain_run :: "'a::linorder graph \<Rightarrow> py_exception + 'a partition" where
  "louvain_run G =
     (if g_node G = [] then Inl (ValueError ''graph has no nodes'')
      else Inr (louvain_with_order ascending G))"

text \<open>The package as the specification describes it.\<close>

definition spec_louvain :: "'a::linorder community_louvain" where
  "spec_louvain =
     \<lparr>best_partition = louvain_run, modularity = evaluate_modularity\<rparr>"

text \<open>
  The package with phase 1 visiting the nodes in a given order: what a run of the
  optimizer computes once the visitation order of that run is fixed.
\<close>

definition louvain_visiting :: "(int list \<Rightarrow> int list) \<Rightarrow> 'a::linorder community_louvain" where
  "louvain_visiting visit =
     \<lparr>best_partition = (\<lambda>G. Inr (louvain_with_order visit G)),
      modularity = evaluate_modularity\<rparr>"

text \<open>Five stations joined by six trips.\<close>

definition five_stations :: "int graph" where
  "five_stations =
     add_edges_from [(0, 1), (0, 2), (0, 4), (1, 3), (1, 4), (2, 3)] empty_graph"

section \<open>Properties of graph construction\<close>

lemma if_either: "(if A then s else if B then s else e) = (if B \<or> A then s else e)"
  by simp

lemma get_edge_data_add_node [simp]:
  "get_edge_data (add_node_if_absent u G) x y = get_edge_data G x y"
  by (auto simp: get_edge_data_def add_node_if_absent_def neighbors_def map_add_def split: option.splits)

lemma get_edge_data_set_adj:
  "get_edge_data (set_adj u v dd G) x y = (if x = u \<and> y = v then Some dd else get_edge_data G x y)"
  by (auto simp: get_edge_data_def set_adj_def neighbors_def update_conv' split: option.splits)

lemma get_edge_data_add_edge:
  "get_edge_data (add_edge u v G) x y =
     (if (x = u \<and> y = v) \<or> (x = v \<and> y = u)
      then Some (case get_edge_data G u v of None \<Rightarrow> [] | Some dd \<Rightarrow> dd)
      else get_edge_data G x y)"
  unfolding add_edge_def Let_def
  by (simp only: get_edge_data_set_adj get_edge_data_add_node if_either)

lemma get_edge_data_add_edge_unweighted:
  assumes "unweighted G"
  shows "get_edge_data (add_edge u v G) x y =
     (if (x = u \<and> y = v) \<or> (x = v \<and> y = u) then Some [] else get_edge_data G x y)"
proof -
  from assms have "get_edge_data G u v = None \<or> get_edge_data G u v = Some []"
    unfolding unweighted_def by blast
  then have "(case get_edge_data G u v of None \<Rightarrow> [] | Some dd \<Rightarrow> dd) = []"
    by (cases "get_edge_data G u v") simp_all
  then show ?thesis by (simp only: get_edge_data_add_edge)
qed

lemma unweighted_add_edge: 
  assumes "unweighted G" shows "unweighted (add_edge u v G)"
  unfolding unweighted_def
proof (intro allI)
  fix x y
  from assms have "get_edge_data G x y = None \<or> get_edge_data G x y = Some []"
    unfolding unweighted_def by blast
  then show "get_edge_data (add_edge u v G) x y = None \<or> get_edge_data (add_edge u v G) x y = Some []"
    unfolding get_edge_data_add_edge_unweighted [OF assms]
    by (cases "x = u \<and> y = v \<or> x = v \<and> y = u") (simp_all only: if_True if_False simp_thms)
qed

lemma get_edge_data_add_edges_from:
  "unweighted G \<Longrightarrow> get_edge_data (add_edges_from es G) x y =
     (if (x, y) \<in> set es \<or> (y, x) \<in> set es then Some [] else get_edge_data G x y)"
proof (induction es arbitrary: G)
  case Nil
  then show ?case by simp
next
  case (Cons e es)
  obtain u v where e: "e = (u, v)" by (cases e)
  have uw: "unweighted (add_edge u v G)" using Cons.prems by (rule unweighted_add_edge)
  have mem: "((x, y) \<in> set (e # es) \<or> (y, x) \<in> set (e # es)) =
             (((x, y) \<in> set es \<or> (y, x) \<in> set es) \<or> (x = u \<and> y = v \<or> x = v \<and> y = u))"
    unfolding e by auto
  show ?case
    unfolding e add_edges_from.simps Cons.IH [OF uw] mem [unfolded e]
      get_edge_data_add_edge_unweighted [OF Cons.prems]
    by (cases "(x, y) \<in> set es \<or> (y, x) \<in> set es";
        cases "x = u \<and> y = v \<or> x = v \<and> y = u") (simp_all only: if_True if_False simp_thms)
qed

lemma unweighted_empty: "unweighted empty_graph"
  by (simp add: unweighted_def get_edge_data_def neighbors_def empty_graph_def)

lemma g_node_add_node: "set (g_node (add_node_if_absent u G)) = insert u (set (g_node G))"
  by (auto simp: add_node_if_absent_def)

lemma g_node_set_adj [simp]: "g_node (set_adj u v dd G) = g_node G"
  by (simp add: set_adj_def)

lemma g_node_add_edge: "set (g_node (add_edge u v G)) = insert u (insert v (set (g_node G)))"
  by (auto simp: add_edge_def Let_def g_node_add_node)

lemma g_node_add_edges_from:
  "set (g_node (add_edges_from es G)) = set (g_node G) \<union> fst ` set es \<union> snd ` set es"
proof (induction es arbitrary: G)
  case Nil
  then show ?case by simp
next
  case (Cons e es)
  obtain u v where e: "e = (u, v)" by (cases e)
  show ?case unfolding e add_edges_from.simps Cons.IH g_node_add_edge by auto
qed

lemma neighbors_add_node [simp]: "neighbors (add_node_if_absent u G) x = neighbors G x"
  by (auto simp: add_node_if_absent_def neighbors_def map_add_def split: option.splits)

lemma neighbors_set_adj:
  "neighbors (set_adj u v dd G) x =
     (if x = u then AList.update v dd (neighbors G u) else neighbors G x)"
  by (simp add: set_adj_def neighbors_def update_conv')

lemma simple_adj_set_adj: "simple_adj G \<Longrightarrow> simple_adj (set_adj u v dd G)"
  by (simp add: simple_adj_def neighbors_set_adj distinct_update)

lemma simple_adj_add_node: "simple_adj G \<Longrightarrow> simple_adj (add_node_if_absent u G)"
  by (simp add: simple_adj_def)

lemma simple_adj_add_edge: "simple_adj G \<Longrightarrow> simple_adj (add_edge u v G)"
  by (simp add: add_edge_def Let_def simple_adj_set_adj simple_adj_add_node)

lemma simple_adj_add_edges_from: "simple_adj G \<Longrightarrow> simple_adj (add_edges_from es G)"
proof (induction es arbitrary: G)
  case Nil
  then show ?case by simp
next
  case (Cons e es)
  obtain u v where e: "e = (u, v)" by (cases e)
  show ?case unfolding e add_edges_from.simps
    by (rule Cons.IH) (rule simple_adj_add_edge [OF Cons.prems])
qed

lemma simple_adj_empty: "simple_adj empty_graph"
  by (simp add: simple_adj_def neighbors_def empty_graph_def)

lemma map_of_take_columns:
  "map_of (map (\<lambda>(name, col). (name, take n col)) df) name = map_option (take n) (map_of df name)"
  by (induction df) auto

lemma df_columns_take [simp]:
  "df_columns (map (\<lambda>(name, col). (name, take n col)) df) = df_columns df"
  by (induction df) (auto simp: df_columns_def)

lemma column_present: "name \<in> set (df_columns df) \<longleftrightarrow> map_of df name \<noteq> None"
  by (simp add: df_columns_def map_of_eq_None_iff)

lemma load_graph_data_Table:
  assumes "fs filepath = Table df"
    and "map_of df ''departure_id'' = Some deps"
    and "map_of df ''return_id'' = Some rets"
  shows "load_graph_data fs filepath =
           Inr (add_edges_from (zip (take 1000 deps) (take 1000 rets)) empty_graph)"
  using assms
  by (simp add: load_graph_data_def read_csv_def required_columns_def column_present
      from_pandas_edgelist_def df_getitem_def map_of_take_columns)

lemma load_graph_data_missing:
  assumes "fs filepath = Table df"
    and "\<not> (''departure_id'' \<in> set (df_columns df) \<and> ''return_id'' \<in> set (df_columns df))"
  shows "load_graph_data fs filepath =
           Inl (ValueError (''Error loading graph data: '' @ missing_columns_message))"
  using assms
  by (auto simp add: load_graph_data_def read_csv_def required_columns_def wrap_error_def)


text \<open>
  Claim C2, as amended. Whatever the number of records joining the same two stations
  among the first 1000, the graph holds one edge between them, in one entry per direction
  of the adjacency, and that edge has no attribute: the weight read off it is the default
  1, not the number of records. Two stations that no record joins have no edge.
\<close>

theorem load_graph_data_edges_unweighted:
  assumes "fs filepath = Table df"
    and "map_of df ''departure_id'' = Some deps"
    and "map_of df ''return_id'' = Some rets"
  shows "\<exists>G. load_graph_data fs filepath = Inr G \<and>
           (\<forall>u v. get_edge_data G u v =
                    (if (u, v) \<in> set (zip (take 1000 deps) (take 1000 rets)) \<or>
                        (v, u) \<in> set (zip (take 1000 deps) (take 1000 rets))
                     then Some [] else None)) \<and>
           (\<forall>u v. map_option edge_weight (get_edge_data G u v) =
                    (if (u, v) \<in> set (zip (take 1000 deps) (take 1000 rets)) \<or>
                        (v, u) \<in> set (zip (take 1000 deps) (take 1000 rets))
                     then Some 1 else None)) \<and>
           (\<forall>u. distinct (map fst (neighbors G u)))"
proof -
  let ?es = "zip (take 1000 deps) (take 1000 rets)"
  let ?G = "add_edges_from ?es empty_graph"
  have load: "load_graph_data fs filepath = Inr ?G"
    using assms by (rule load_graph_data_Table)
  have none: "get_edge_data empty_graph u v = None" for u v :: 'a
    by (simp add: get_edge_data_def neighbors_def empty_graph_def)
  have data: "get_edge_data ?G u v =
                (if (u, v) \<in> set ?es \<or> (v, u) \<in> set ?es then Some [] else None)" for u v
    unfolding get_edge_data_add_edges_from [OF unweighted_empty] none ..
  have weight: "map_option edge_weight (get_edge_data ?G u v) =
                (if (u, v) \<in> set ?es \<or> (v, u) \<in> set ?es then Some 1 else None)" for u v
    unfolding data by (simp add: edge_weight_def)
  have "simple_adj ?G"
    by (rule simple_adj_add_edges_from [OF simple_adj_empty])
  then have simple: "distinct (map fst (neighbors ?G u))" for u
    unfolding simple_adj_def by blast
  from load data weight simple show ?thesis by blast
qed

theorem load_graph_data_edges_unweighted_witness:
  "\<exists>G. load_graph_data repeated_fs ''data/Databike.csv'' = Inr G \<and>
       get_edge_data G 1 2 = Some [] \<and>
       map_option edge_weight (get_edge_data G 1 2) = Some 1 \<and>
       get_edge_data G 1 1 = None \<and>
       distinct (map fst (neighbors G 1))"
proof -
  have tbl: "repeated_fs ''data/Databike.csv'' =
                Table [(''departure_id'', [1, 1]), (''return_id'', [2, 2])]"
    by (simp add: repeated_fs_def)
  have deps: "map_of [(''departure_id'', [1, 1 :: int]), (''return_id'', [2, 2])]
                ''departure_id'' = Some [1, 1]"
    by simp
  have rets: "map_of [(''departure_id'', [1, 1 :: int]), (''return_id'', [2, 2])]
                ''return_id'' = Some [2, 2]"
    by simp
  from load_graph_data_edges_unweighted
    [where fs = repeated_fs and filepath = "''data/Databike.csv''", OF tbl deps rets]
  obtain G where G: "load_graph_data repeated_fs ''data/Databike.csv'' = Inr G"
    and data: "\<And>u v. get_edge_data G u v =
                 (if (u, v) \<in> set (zip (take 1000 [1, 1]) (take 1000 [2, 2])) \<or>
                     (v, u) \<in> set (zip (take 1000 [1, 1]) (take 1000 [2, 2]))
                  then Some [] else None)"
    and weight: "\<And>u v. map_option edge_weight (get_edge_data G u v) =
                 (if (u, v) \<in> set (zip (take 1000 [1, 1]) (take 1000 [2, 2])) \<or>
                     (v, u) \<in> set (zip (take 1000 [1, 1]) (take 1000 [2, 2]))
                  then Some 1 else None)"
    and simple: "\<And>u. distinct (map fst (neighbors G u))"
    by blast
  have "get_edge_data G 1 2 = Some []" unfolding data by simp
  moreover have "map_option edge_weight (get_edge_data G 1 2) = Some 1" unfolding weight by simp
  moreover have "get_edge_data G 1 1 = None" unfolding data by simp
  ultimately show ?thesis using G simple by blast
qed

text \<open>
  Claim C2 as stated fails: two records between the stations 1 and 2 give an edge with an
  empty attribute dictionary, whose weight reads as 1 and not as the accumulated 2.
\<close>

theorem repeated_edges_counterexample:
  "load_graph_data repeated_fs ''data/Databike.csv'' =
     Inr \<lparr>g_node = [1, 2], g_adj = [(1, [(2, [])]), (2, [(1, [])])]\<rparr> \<and>
   get_edge_data \<lparr>g_node = [1, 2], g_adj = [(1, [(2, [])]), (2, [(1, [])])]\<rparr> 1 2 = Some [] \<and>
   edge_weight [] = 1 \<and> edge_weight [] \<noteq> 1 + 1"
  by (simp add: load_graph_data_def read_csv_def repeated_fs_def required_columns_def
      df_columns_def from_pandas_edgelist_def df_getitem_def empty_graph_def add_edge_def
      add_node_if_absent_def get_edge_data_def neighbors_def set_adj_def edge_weight_def)

text \<open>
  Claim C3, as amended. A record among the first 1000 whose two endpoints are equal is
  kept: the graph has a self-loop edge at that station.
\<close>

theorem load_graph_data_keeps_self_loops:
  assumes "fs filepath = Table df"
    and "map_of df ''departure_id'' = Some deps"
    and "map_of df ''return_id'' = Some rets"
    and "(u, u) \<in> set (zip (take 1000 deps) (take 1000 rets))"
  shows "\<exists>G. load_graph_data fs filepath = Inr G \<and> has_edge G u u \<and> u \<in> set (g_node G)"
proof -
  let ?es = "zip (take 1000 deps) (take 1000 rets)"
  let ?G = "add_edges_from ?es empty_graph"
  have load: "load_graph_data fs filepath = Inr ?G"
    using assms(1-3) by (rule load_graph_data_Table)
  have "get_edge_data ?G u u = Some []"
    unfolding get_edge_data_add_edges_from [OF unweighted_empty] using assms(4) by simp
  then have "has_edge ?G u u" by (simp add: has_edge_def)
  moreover have "u \<in> set (g_node ?G)"
    unfolding g_node_add_edges_from using assms(4) by force
  ultimately show ?thesis using load by blast
qed

theorem load_graph_data_keeps_self_loops_witness:
  "\<exists>G. load_graph_data self_loop_fs ''data/Databike.csv'' = Inr G \<and> has_edge G 5 5 \<and>
       5 \<in> set (g_node G)"
proof -
  have tbl: "self_loop_fs ''data/Databike.csv'' =
                Table [(''departure_id'', [5]), (''return_id'', [5])]"
    by (simp add: self_loop_fs_def)
  have deps: "map_of [(''departure_id'', [5 :: int]), (''return_id'', [5])]
                ''departure_id'' = Some [5]"
    by simp
  have rets: "map_of [(''departure_id'', [5 :: int]), (''return_id'', [5])]
                ''return_id'' = Some [5]"
    by simp
  have loop: "(5 :: int, 5 :: int) \<in> set (zip (take 1000 [5]) (take 1000 [5]))"
    by simp
  show ?thesis
    using load_graph_data_keeps_self_loops
      [where fs = self_loop_fs and filepath = "''data/Databike.csv''", OF tbl deps rets loop] .
qed

text \<open>
  Claim C3 as stated fails: the single record (5, 5) is not dropped; the graph built
  from it has the node 5 and a self-loop edge at it.
\<close>

theorem self_loop_counterexample:
  "load_graph_data self_loop_fs ''data/Databike.csv'' =
     Inr \<lparr>g_node = [5], g_adj = [(5, [(5, [])])]\<rparr> \<and>
   has_edge \<lparr>g_node = [5], g_adj = [(5, [(5, [])])]\<rparr> 5 5"
  by (simp add: load_graph_data_def read_csv_def self_loop_fs_def required_columns_def
      df_columns_def from_pandas_edgelist_def df_getitem_def empty_graph_def add_edge_def
      add_node_if_absent_def get_edge_data_def neighbors_def set_adj_def has_edge_def)


section \<open>Properties of the analysis\<close>

text \<open>
  Claim C4. For an absent graph (\<open>None\<close>) and for a graph with no node,
  \<open>detect_communities\<close> returns a modularity score of 0, 0 communities and 0 nodes, and
  makes no call to the Louvain package, whatever the package would have answered.
\<close>

theorem detect_communities_empty_graph:
  assumes "G' = None \<or> (\<exists>G. G' = Some G \<and> g_node G = [])"
  shows "detect_communities lib G' =
           ([], Inr \<lparr>modularity_score = 0, total_communities_detected = 0, total_nodes = 0\<rparr>)"
  using assms by (auto simp: detect_communities_def empty_result_def)

theorem detect_communities_empty_graph_witness:
  "detect_communities (failing_lib :: int community_louvain) None =
     ([], Inr \<lparr>modularity_score = 0, total_communities_detected = 0, total_nodes = 0\<rparr>) \<and>
   detect_communities (failing_lib :: int community_louvain) (Some empty_graph) =
     ([], Inr \<lparr>modularity_score = 0, total_communities_detected = 0, total_nodes = 0\<rparr>)"
proof -
  have absent: "(None :: int graph option) = None \<or>
                  (\<exists>G. (None :: int graph option) = Some G \<and> g_node G = [])"
    by simp
  have no_nodes: "Some (empty_graph :: int graph) = None \<or>
                  (\<exists>G. Some (empty_graph :: int graph) = Some G \<and> g_node G = [])"
    by (simp add: empty_graph_def)
  show ?thesis
    using detect_communities_empty_graph [OF absent, of failing_lib]
      detect_communities_empty_graph [OF no_nodes, of failing_lib]
    by simp
qed

text \<open>
  Claim C7. On a graph with at least one node, the number of communities that
  \<open>detect_communities\<close> reports is the number of distinct community ids that occur in
  the partition the optimizer returned: the cardinality of the set of its values, not
  the span between the least and the greatest id.
\<close>

theorem detect_communities_counts_used_ids:
  assumes "g_node G \<noteq> []"
    and "best_partition lib G = Inr P"
    and "snd (detect_communities lib (Some G)) = Inr r"
  shows "total_communities_detected r = int (card (snd ` set P))"
proof -
  have "card (snd ` set P) = length (remdups (map snd P))"
    by (simp add: length_remdups_card_conv)
  with assms show ?thesis
    by (auto simp: detect_communities_def split: sum.splits)
qed

theorem detect_communities_counts_used_ids_witness:
  "total_communities_detected
     \<lparr>modularity_score = 0, total_communities_detected = 2, total_nodes = 3\<rparr> =
   int (card (snd ` set [(1 :: int, 0 :: int), (2, 5), (3, 5)]))"
proof -
  have nodes: "g_node triangle \<noteq> []"
    by (simp add: triangle_def empty_graph_def add_edge_def add_node_if_absent_def
        get_edge_data_def neighbors_def set_adj_def)
  have part: "best_partition gapped_lib triangle = Inr [(1, 0), (2, 5), (3, 5)]"
    by (simp add: gapped_lib_def)
  have run: "snd (detect_communities gapped_lib (Some triangle)) =
               Inr \<lparr>modularity_score = 0, total_communities_detected = 2, total_nodes = 3\<rparr>"
    by (simp add: detect_communities_def gapped_lib_def triangle_def empty_graph_def
        add_edge_def add_node_if_absent_def get_edge_data_def neighbors_def set_adj_def)
  show ?thesis
    by (rule detect_communities_counts_used_ids [OF nodes part run])
qed

text \<open>
  Claim C9. Whenever \<open>analyze_network\<close> answers successfully, the response carries the
  label \<open>Louvain\<close> as its algorithm, and its results are the record of modularity score,
  number of communities and number of nodes that \<open>detect_communities\<close> returned for the
  graph held in the process state.
\<close>

theorem analyze_network_success_shape:
  assumes "analyze_network lib graph_state = Inr resp"
  shows "algorithm resp = ''Louvain'' \<and> status resp = ''success'' \<and>
         (\<exists>G. graph_state ''G'' = Some (Some G) \<and>
              snd (detect_communities lib (Some G)) = Inr (results resp)) \<and>
         results resp =
           \<lparr>modularity_score = modularity_score (results resp),
            total_communities_detected = total_communities_detected (results resp),
            total_nodes = total_nodes (results resp)\<rparr>"
  using assms
  by (auto simp: analyze_network_def state_get_def split: option.splits sum.splits)

theorem analyze_network_success_shape_witness:
  "algorithm \<lparr>status = ''success'', algorithm = ''Louvain'',
      results = \<lparr>modularity_score = 0, total_communities_detected = 2, total_nodes = 3\<rparr>\<rparr> =
     ''Louvain'' \<and>
   analyze_network gapped_lib [''G'' \<mapsto> Some triangle] =
     Inr \<lparr>status = ''success'', algorithm = ''Louvain'',
      results = \<lparr>modularity_score = 0, total_communities_detected = 2, total_nodes = 3\<rparr>\<rparr>"
proof -
  have run: "analyze_network gapped_lib [''G'' \<mapsto> Some triangle] =
     Inr \<lparr>status = ''success'', algorithm = ''Louvain'',
      results = \<lparr>modularity_score = 0, total_communities_detected = 2, total_nodes = 3\<rparr>\<rparr>"
    by (simp add: analyze_network_def state_get_def detect_communities_def gapped_lib_def
        triangle_def empty_graph_def add_edge_def add_node_if_absent_def get_edge_data_def
        neighbors_def set_adj_def)
  from analyze_network_success_shape [OF run] run show ?thesis by blast
qed

section \<open>Properties of loading\<close>

text \<open>
  Claim C6. When the table read from the file lacks \<open>departure_id\<close> or \<open>return_id\<close>,
  \<open>load_graph_data\<close> raises a \<open>ValueError\<close> (the error the specification calls
  DataError) and returns no graph.
\<close>

theorem load_graph_data_missing_column:
  assumes "fs filepath = Table df"
    and "''departure_id'' \<notin> set (df_columns df) \<or> ''return_id'' \<notin> set (df_columns df)"
  shows "load_graph_data fs filepath =
           Inl (ValueError (''Error loading graph data: '' @ missing_columns_message)) \<and>
         (\<forall>G. load_graph_data fs filepath \<noteq> Inr G)"
proof -
  from assms(2)
  have "\<not> (''departure_id'' \<in> set (df_columns df) \<and> ''return_id'' \<in> set (df_columns df))"
    by blast
  from load_graph_data_missing [where fs = fs and filepath = filepath, OF assms(1) this]
  show ?thesis by simp
qed

theorem load_graph_data_missing_column_witness:
  "load_graph_data no_return_fs ''data/Databike.csv'' =
     Inl (ValueError (''Error loading graph data: '' @ missing_columns_message))"
proof -
  have tbl: "no_return_fs ''data/Databike.csv'' =
               Table [(''departure_id'', [1, 2]), (''arrival_id'', [2, 3])]"
    by (simp add: no_return_fs_def)
  have missing: "''departure_id'' \<notin> set (df_columns [(''departure_id'', [1, 2 :: int]), (''arrival_id'', [2, 3])]) \<or>
                 ''return_id'' \<notin> set (df_columns [(''departure_id'', [1, 2 :: int]), (''arrival_id'', [2, 3])])"
    by (simp add: df_columns_def)
  from load_graph_data_missing_column
    [where fs = no_return_fs and filepath = "''data/Databike.csv''", OF tbl missing]
  show ?thesis by blast
qed

text \<open>
  Claim C10. Only the first 1000 data records of the file reach the graph: loading a
  file gives the same result as loading the file cut after its first 1000 records, and
  every node of the graph occurs among the first 1000 cells of a column of the file.
\<close>

theorem load_graph_data_first_1000_records:
  assumes "fs filepath = Table df"
    and "fs' filepath' = Table (map (\<lambda>(name, col). (name, take 1000 col)) df)"
  shows "load_graph_data fs filepath = load_graph_data fs' filepath' \<and>
         (\<forall>G. load_graph_data fs filepath = Inr G \<longrightarrow>
              (\<forall>n \<in> set (g_node G). \<exists>name col. (name, col) \<in> set df \<and> n \<in> set (take 1000 col)))"
proof
  have idem: "(\<lambda>(name :: string, col :: 'a list). (name, take 1000 col)) \<circ>
                (\<lambda>(name, col). (name, take 1000 col)) =
              (\<lambda>(name, col). (name, take 1000 col))"
    by (auto simp: fun_eq_iff)
  have "read_csv fs' filepath' 1000 = read_csv fs filepath 1000"
    by (simp add: read_csv_def assms idem)
  then show "load_graph_data fs filepath = load_graph_data fs' filepath'"
    by (simp add: load_graph_data_def)
next
  show "\<forall>G. load_graph_data fs filepath = Inr G \<longrightarrow>
          (\<forall>n \<in> set (g_node G). \<exists>name col. (name, col) \<in> set df \<and> n \<in> set (take 1000 col))"
  proof (intro allI impI ballI)
    fix G n
    assume load: "load_graph_data fs filepath = Inr G" and n: "n \<in> set (g_node G)"
    have present: "''departure_id'' \<in> set (df_columns df) \<and> ''return_id'' \<in> set (df_columns df)"
    proof (rule ccontr)
      assume "\<not> ?thesis"
      from load_graph_data_missing [where fs = fs and filepath = filepath, OF assms(1) this] load
      show False by simp
    qed
    then obtain deps rets where deps: "map_of df ''departure_id'' = Some deps"
      and rets: "map_of df ''return_id'' = Some rets"
      by (auto simp: column_present)
    from load_graph_data_Table [where fs = fs and filepath = filepath, OF assms(1) deps rets] load
    have G: "G = add_edges_from (zip (take 1000 deps) (take 1000 rets)) empty_graph" by simp
    from n have "n \<in> fst ` set (zip (take 1000 deps) (take 1000 rets)) \<or>
                 n \<in> snd ` set (zip (take 1000 deps) (take 1000 rets))"
      unfolding G g_node_add_edges_from by (simp add: empty_graph_def)
    then have "n \<in> set (take 1000 deps) \<or> n \<in> set (take 1000 rets)"
      by (auto dest: set_zip_leftD set_zip_rightD)
    moreover have "(''departure_id'', deps) \<in> set df" using deps by (rule map_of_SomeD)
    moreover have "(''return_id'', rets) \<in> set df" using rets by (rule map_of_SomeD)
    ultimately show "\<exists>name col. (name, col) \<in> set df \<and> n \<in> set (take 1000 col)" by blast
  qed
qed


lemma add_edges_from_replicate:
  "add_edge u v G = G \<Longrightarrow> add_edges_from (replicate n (u, v)) G = G"
  by (induction n) simp_all

lemma add_edges_from_Suc_replicate:
  "add_edge u v (add_edge u v G) = add_edge u v G \<Longrightarrow>
   add_edges_from (replicate (Suc n) (u, v)) G = add_edge u v G"
  by (simp add: add_edges_from_replicate)

theorem load_graph_data_first_1000_records_witness:
  "load_graph_data long_fs ''data/Databike.csv'' = load_graph_data cut_fs ''data/Databike.csv'' \<and>
   load_graph_data cut_fs ''data/Databike.csv'' =
     Inr \<lparr>g_node = [1, 2], g_adj = [(1, [(2, [])]), (2, [(1, [])])]\<rparr> \<and>
   7 \<notin> set (g_node \<lparr>g_node = [1, 2 :: int], g_adj = [(1, [(2, [])]), (2, [(1, [])])]\<rparr>)"
proof -
  have long: "long_fs ''data/Databike.csv'' =
                Table [(''departure_id'', replicate 1000 1 @ [7]),
                       (''return_id'', replicate 1000 2 @ [8])]"
    by (simp add: long_fs_def)
  have cut: "cut_fs ''data/Databike.csv'' =
               Table (map (\<lambda>(name, col). (name, take 1000 col))
                 [(''departure_id'', replicate 1000 1 @ [7]),
                  (''return_id'', replicate 1000 2 @ [8])])"
    by (simp add: cut_fs_def)
  have cut': "cut_fs ''data/Databike.csv'' =
               Table [(''departure_id'', replicate 1000 1), (''return_id'', replicate 1000 2)]"
    by (simp add: cut_fs_def)
  have same: "load_graph_data long_fs ''data/Databike.csv'' =
              load_graph_data cut_fs ''data/Databike.csv''"
    using load_graph_data_first_1000_records
      [where fs = long_fs and filepath = "''data/Databike.csv''" and fs' = cut_fs
        and filepath' = "''data/Databike.csv''", OF long cut]
    by blast
  have once: "add_edge 1 2 (empty_graph :: int graph) =
                \<lparr>g_node = [1, 2], g_adj = [(1, [(2, [])]), (2, [(1, [])])]\<rparr>"
    by (simp add: empty_graph_def add_edge_def add_node_if_absent_def get_edge_data_def
        neighbors_def set_adj_def)
  have twice: "add_edge 1 2 \<lparr>g_node = [1, 2 :: int], g_adj = [(1, [(2, [])]), (2, [(1, [])])]\<rparr> =
                \<lparr>g_node = [1, 2], g_adj = [(1, [(2, [])]), (2, [(1, [])])]\<rparr>"
    by (simp add: add_edge_def add_node_if_absent_def get_edge_data_def
        neighbors_def set_adj_def)
  have records: "zip (take 1000 (replicate 1000 (1 :: int))) (take 1000 (replicate 1000 (2 :: int))) =
                   replicate (Suc 999) (1, 2)"
    by (simp add: zip_replicate)
  have "load_graph_data cut_fs ''data/Databike.csv'' =
          Inr (add_edges_from
            (zip (take 1000 (replicate 1000 1)) (take 1000 (replicate 1000 2))) empty_graph)"
    by (rule load_graph_data_Table [where fs = cut_fs, OF cut']) simp_all
  also have "\<dots> = Inr \<lparr>g_node = [1, 2], g_adj = [(1, [(2, [])]), (2, [(1, [])])]\<rparr>"
    unfolding records
    by (subst add_edges_from_Suc_replicate) (simp_all only: once twice)
  finally show ?thesis using same by simp
qed

section \<open>Bounds on the modularity score\<close>

lemma sum_list_swap:
  "(\<Sum>v\<leftarrow>vs. \<Sum>e\<leftarrow>es. f e v) = (\<Sum>e\<leftarrow>es. \<Sum>v\<leftarrow>vs. (f e v :: real))"
proof (induction vs)
  case Nil
  then show ?case by simp
next
  case (Cons v vs)
  then show ?case by (simp add: sum_list_addf)
qed

lemma sum_list_filter_pick:
  "distinct vs \<Longrightarrow>
   (\<Sum>v\<leftarrow>filter Q vs. if a = v then w else 0) = (if a \<in> set vs \<and> Q a then (w :: real) else 0)"
  by (induction vs) auto

lemma sum_list_at_most_one:
  assumes "distinct cs" and "0 \<le> (w :: real)"
    and "\<And>c c'. R c \<Longrightarrow> R c' \<Longrightarrow> c = c'"
  shows "(\<Sum>c\<leftarrow>cs. if R c then w else 0) \<le> w"
  using assms(1)
proof (induction cs)
  case Nil
  then show ?case using assms(2) by simp
next
  case (Cons c cs)
  show ?case
  proof (cases "R c")
    case True
    have "\<not> R c'" if "c' \<in> set cs" for c'
      using assms(3) [OF True, of c'] that Cons.prems by auto
    then have "(\<Sum>c\<leftarrow>cs. if R c then w else 0) = (\<Sum>c\<leftarrow>cs. 0)"
      by (intro arg_cong [where f = sum_list] map_cong) auto
    then show ?thesis using True by simp
  next
    case False
    then show ?thesis using Cons by simp
  qed
qed

lemma total_degree_by_edges:
  assumes "distinct (g_node G)"
  shows "total_degree G P c =
           (\<Sum>(a, b, w) \<leftarrow> edges G.
              (if a \<in> set (g_node G) \<and> map_of P a = Some c then w else 0) +
              (if b \<in> set (g_node G) \<and> map_of P b = Some c then w else 0))"
proof -
  have "total_degree G P c =
          (\<Sum>v\<leftarrow>members G P c. \<Sum>e\<leftarrow>edges G.
             (case e of (a, b, w) \<Rightarrow> (if a = v then w else 0) + (if b = v then w else 0)))"
    by (simp add: total_degree_def degree_def)
  also have "\<dots> =
          (\<Sum>e\<leftarrow>edges G. \<Sum>v\<leftarrow>members G P c.
             (case e of (a, b, w) \<Rightarrow> (if a = v then w else 0) + (if b = v then w else 0)))"
    by (rule sum_list_swap)
  also have "\<dots> =
          (\<Sum>(a, b, w) \<leftarrow> edges G.
              (if a \<in> set (g_node G) \<and> map_of P a = Some c then w else 0) +
              (if b \<in> set (g_node G) \<and> map_of P b = Some c then w else 0))"
  proof (intro arg_cong [where f = sum_list] map_cong refl)
    fix e assume "e \<in> set (edges G)"
    obtain a b w where e: "e = (a, b, w)" by (cases e)
    show "(\<Sum>v\<leftarrow>members G P c.
             (case e of (a, b, w) \<Rightarrow> (if a = v then w else 0) + (if b = v then w else 0))) =
          (case e of (a, b, w) \<Rightarrow>
              (if a \<in> set (g_node G) \<and> map_of P a = Some c then w else 0) +
              (if b \<in> set (g_node G) \<and> map_of P b = Some c then w else 0))"
      unfolding e members_def
      by (simp add: sum_list_addf sum_list_filter_pick [OF assms])
  qed
  finally show ?thesis .
qed

lemma internal_weight_nonneg:
  assumes "positive_weights G"
  shows "0 \<le> internal_weight G P c"
  unfolding internal_weight_def
  using assms by (intro sum_list_nonneg) (auto simp: positive_weights_def list_all_iff)

lemma internal_weight_le_total:
  assumes "positive_weights G"
  shows "internal_weight G P c \<le> total_weight G"
  unfolding internal_weight_def total_weight_def
  using assms by (intro sum_list_mono) (auto simp: positive_weights_def list_all_iff)

lemma total_degree_nonneg:
  assumes "distinct (g_node G)" and "positive_weights G"
  shows "0 \<le> total_degree G P c"
  unfolding total_degree_by_edges [OF assms(1)]
  using assms(2) by (intro sum_list_nonneg) (auto simp: positive_weights_def list_all_iff)

lemma total_degree_le:
  assumes "distinct (g_node G)" and "positive_weights G"
  shows "total_degree G P c \<le> total_weight G + internal_weight G P c"
proof -
  have "total_weight G + internal_weight G P c =
          (\<Sum>(a, b, w) \<leftarrow> edges G.
             w + (if map_of P a = Some c \<and> map_of P b = Some c then w else 0))"
    unfolding total_weight_def internal_weight_def
    by (simp add: split_def sum_list_addf)
  moreover have "total_degree G P c \<le> \<dots>"
    unfolding total_degree_by_edges [OF assms(1)]
    using assms(2) by (intro sum_list_mono) (auto simp: positive_weights_def list_all_iff)
  ultimately show ?thesis by simp
qed

lemma sum_internal_weight_le:
  assumes "positive_weights G"
  shows "(\<Sum>c\<leftarrow>communities P. internal_weight G P c) \<le> total_weight G"
proof -
  have "(\<Sum>c\<leftarrow>communities P. internal_weight G P c) =
          (\<Sum>e\<leftarrow>edges G. \<Sum>c\<leftarrow>communities P.
             (case e of (a, b, w) \<Rightarrow>
                if map_of P a = Some c \<and> map_of P b = Some c then w else 0))"
    unfolding internal_weight_def by (rule sum_list_swap)
  also have "\<dots> \<le> (\<Sum>e\<leftarrow>edges G. case e of (a, b, w) \<Rightarrow> w)"
  proof (rule sum_list_mono)
    fix e assume mem: "e \<in> set (edges G)"
    obtain a b w where e: "e = (a, b, w)" by (cases e)
    have w: "0 \<le> w" using assms mem by (auto simp: positive_weights_def list_all_iff e)
    show "(\<Sum>c\<leftarrow>communities P.
             (case e of (a, b, w) \<Rightarrow>
                if map_of P a = Some c \<and> map_of P b = Some c then w else 0)) \<le>
          (case e of (a, b, w) \<Rightarrow> w)"
      unfolding e prod.case
      by (rule sum_list_at_most_one) (simp_all add: communities_def w)
  qed
  finally show ?thesis by (simp add: total_weight_def)
qed

lemma sum_total_degree_le:
  assumes "distinct (g_node G)" and "positive_weights G"
  shows "(\<Sum>c\<leftarrow>communities P. total_degree G P c) \<le> 2 * total_weight G"
proof -
  let ?N = "set (g_node G)"
  have "(\<Sum>c\<leftarrow>communities P. total_degree G P c) =
          (\<Sum>e\<leftarrow>edges G. \<Sum>c\<leftarrow>communities P.
             (case e of (a, b, w) \<Rightarrow>
                (if a \<in> ?N \<and> map_of P a = Some c then w else 0) +
                (if b \<in> ?N \<and> map_of P b = Some c then w else 0)))"
    unfolding total_degree_by_edges [OF assms(1)] by (rule sum_list_swap)
  also have "\<dots> \<le> (\<Sum>e\<leftarrow>edges G. case e of (a, b, w) \<Rightarrow> w + w)"
  proof (rule sum_list_mono)
    fix e assume mem: "e \<in> set (edges G)"
    obtain a b w where e: "e = (a, b, w)" by (cases e)
    have w: "0 \<le> w" using assms(2) mem by (auto simp: positive_weights_def list_all_iff e)
    have d: "distinct (communities P)" by (simp add: communities_def)
    have "(\<Sum>c\<leftarrow>communities P. if a \<in> ?N \<and> map_of P a = Some c then w else 0) \<le> w"
      by (rule sum_list_at_most_one [OF d w]) simp
    moreover
    have "(\<Sum>c\<leftarrow>communities P. if b \<in> ?N \<and> map_of P b = Some c then w else 0) \<le> w"
      by (rule sum_list_at_most_one [OF d w]) simp
    ultimately
    show "(\<Sum>c\<leftarrow>communities P.
             (case e of (a, b, w) \<Rightarrow>
                (if a \<in> ?N \<and> map_of P a = Some c then w else 0) +
                (if b \<in> ?N \<and> map_of P b = Some c then w else 0))) \<le>
          (case e of (a, b, w) \<Rightarrow> w + w)"
      unfolding e prod.case by (simp add: sum_list_addf)
  qed
  also have "\<dots> = 2 * total_weight G"
    by (simp add: total_weight_def split_def sum_list_const_mult)
  finally show ?thesis .
qed

text \<open>The contribution of one community, between the two bounds that add up.\<close>

lemma community_term_upper:
  fixes m i t :: real
  assumes "0 < m"
  shows "i / m - (t / (2 * m))\<^sup>2 \<le> i / m"
  by simp

lemma community_term_lower:
  fixes m i t :: real
  assumes "0 < m" and "0 \<le> i" and "i \<le> m" and "0 \<le> t" and "t \<le> m + i"
  shows "- (t / (4 * m)) \<le> i / m - (t / (2 * m))\<^sup>2"
proof -
  have key: "t\<^sup>2 \<le> t * m + 4 * i * m"
  proof (cases "t \<le> m")
    case True
    have "t * t \<le> t * m" using True assms(4) by (rule mult_left_mono)
    moreover have "0 \<le> 4 * i * m" using assms(1,2) by simp
    ultimately show ?thesis by (simp add: power2_eq_square)
  next
    case False
    have "(t - m) * (t - 4 * m) \<le> 0"
      using False assms by (intro mult_nonneg_nonpos) auto
    then have "t\<^sup>2 \<le> 5 * t * m - 4 * m * m"
      by (simp add: power2_eq_square algebra_simps)
    moreover have "4 * (t - m) * m \<le> 4 * i * m"
      using assms(1,5) by (intro mult_right_mono) auto
    ultimately show ?thesis by (simp add: algebra_simps)
  qed
  have "i / m - (t / (2 * m))\<^sup>2 + t / (4 * m) = (t * m + 4 * i * m - t\<^sup>2) / (4 * m\<^sup>2)"
    using assms(1) by (simp add: field_simps power2_eq_square)
  moreover have "0 \<le> (t * m + 4 * i * m - t\<^sup>2) / (4 * m\<^sup>2)"
    using key assms(1) by (intro divide_nonneg_nonneg) auto
  ultimately show ?thesis by linarith
qed

lemma sum_list_divide_const:
  "(\<Sum>c\<leftarrow>cs. f c / m) = (\<Sum>c\<leftarrow>cs. f c) / (m :: real)"
  by (induction cs) (simp_all add: add_divide_distrib)

lemma score_upper:
  assumes "positive_weights G" and "0 < total_weight G"
  shows "score G P \<le> 1"
proof -
  let ?m = "total_weight G"
  have "score G P \<le> (\<Sum>c\<leftarrow>communities P. internal_weight G P c / ?m)"
    unfolding score_def Let_def by (rule sum_list_mono) simp
  also have "\<dots> = (\<Sum>c\<leftarrow>communities P. internal_weight G P c) / ?m"
    by (rule sum_list_divide_const)
  also have "\<dots> \<le> 1"
    using sum_internal_weight_le [OF assms(1), of P] assms(2) by simp
  finally show ?thesis .
qed

lemma score_lower:
  assumes "distinct (g_node G)" and "positive_weights G" and "0 < total_weight G"
  shows "- (1 / 2) \<le> score G P"
proof -
  let ?m = "total_weight G"
  have "- (1 / 2) \<le> - ((\<Sum>c\<leftarrow>communities P. total_degree G P c) / (4 * ?m))"
    using sum_total_degree_le [OF assms(1,2), of P] assms(3) by (simp add: field_simps)
  also have "\<dots> = (\<Sum>c\<leftarrow>communities P. - (total_degree G P c / (4 * ?m)))"
    by (simp add: sum_list_divide_const [symmetric] uminus_sum_list_map o_def)
  also have "\<dots> \<le> score G P"
    unfolding score_def Let_def
  proof (rule sum_list_mono)
    fix c
    show "- (total_degree G P c / (4 * ?m)) \<le>
          internal_weight G P c / ?m - (total_degree G P c / (2 * ?m))\<^sup>2"
      by (rule community_term_lower [OF assms(3) internal_weight_nonneg [OF assms(2)]
            internal_weight_le_total [OF assms(2)] total_degree_nonneg [OF assms(1,2)]
            total_degree_le [OF assms(1,2)]])
  qed
  finally show ?thesis .
qed

lemma internal_weight_singleton:
  assumes "loop_free G" and "singleton_partition P"
  shows "internal_weight G P c = 0"
proof -
  have "(case e of (a, b, w) \<Rightarrow>
           if map_of P a = Some c \<and> map_of P b = Some c then w else 0) = (0 :: real)"
    if mem: "e \<in> set (edges G)" for e
  proof -
    obtain a b w where e: "e = (a, b, w)" by (cases e)
    have ab: "a \<noteq> b" using assms(1) mem by (auto simp: loop_free_def list_all_iff e)
    have "\<not> (map_of P a = Some c \<and> map_of P b = Some c)"
    proof
      assume "map_of P a = Some c \<and> map_of P b = Some c"
      then have "(a, c) \<in> set P" and "(b, c) \<in> set P" by (auto dest: map_of_SomeD)
      moreover have "inj_on snd (set P)"
        using assms(2) by (simp add: singleton_partition_def distinct_map)
      ultimately have "(a, c) = (b, c)" by (intro inj_onD [where f = snd and A = "set P"]) simp_all
      with ab show False by simp
    qed
    then show ?thesis unfolding e prod.case by (simp only: if_False)
  qed
  then have "internal_weight G P c = (\<Sum>e\<leftarrow>edges G. 0)"
    unfolding internal_weight_def by (intro arg_cong [where f = sum_list] map_cong) auto
  then show ?thesis by simp
qed

lemma score_singleton:
  assumes "loop_free G" and "singleton_partition P"
  shows "score G P \<le> 0"
proof -
  have "score G P \<le> (\<Sum>c\<leftarrow>communities P. 0)"
    unfolding score_def Let_def
    by (rule sum_list_mono) (simp add: internal_weight_singleton [OF assms])
  then show ?thesis by simp
qed

text \<open>
  Claim C8, as amended. For a graph with unique nodes, positive weights and total weight
  \<open>m > 0\<close>, and a valid partition of it, the modularity score lies in the closed interval
  from \<open>-1/2\<close> to \<open>1\<close>; and when the graph has no self-loop, the partition that gives
  every node a community of its own has a score of at most \<open>0\<close>.
\<close>

theorem score_bounds:
  assumes "distinct (g_node G)" and "positive_weights G" and "0 < total_weight G"
    and "valid_partition G P"
  shows "- (1 / 2) \<le> score G P \<and> score G P \<le> 1 \<and>
         (loop_free G \<and> singleton_partition P \<longrightarrow> score G P \<le> 0)"
  using score_lower [OF assms(1-3)] score_upper [OF assms(2,3)] score_singleton
  by blast

lemmas graph_eval =
  empty_graph_def add_edge_def add_node_if_absent_def get_edge_data_def neighbors_def
  set_adj_def edges_def edge_weight_def

theorem score_bounds_witness:
  "- (1 / 2) \<le> score triangle [(1, 0), (2, 1), (3, 2)] \<and>
   score triangle [(1, 0), (2, 1), (3, 2)] \<le> 1 \<and>
   score triangle [(1, 0), (2, 1), (3, 2)] \<le> 0"
proof -
  have nodes: "distinct (g_node triangle)"
    by (simp add: triangle_def graph_eval)
  have positive: "positive_weights triangle"
    by (simp add: positive_weights_def triangle_def graph_eval)
  have weight: "0 < total_weight triangle"
    by (simp add: total_weight_def triangle_def graph_eval)
  have valid: "valid_partition triangle [(1, 0), (2, 1), (3, 2)]"
    by (simp add: valid_partition_def triangle_def graph_eval)
  have loops: "loop_free triangle"
    by (simp add: loop_free_def triangle_def graph_eval)
  have single: "singleton_partition [(1 :: int, 0), (2, 1), (3, 2)]"
    by (simp add: singleton_partition_def)
  from score_bounds [OF nodes positive weight valid] loops single
  show ?thesis by blast
qed

text \<open>
  Claim C8 as stated fails at the lower end of the interval: on a single edge of weight
  1 whose endpoints are in two communities, the score is exactly \<open>-1/2\<close>, which the open
  interval excludes.
\<close>

theorem score_lower_bound_attained:
  "valid_partition single_edge [(1, 0), (2, 1)] \<and> total_weight single_edge = 1 \<and>
   score single_edge [(1, 0), (2, 1)] = - (1 / 2)"
  by (simp add: valid_partition_def total_weight_def score_def communities_def
      internal_weight_def total_degree_def members_def degree_def single_edge_def graph_eval
      power2_eq_square)

text \<open>
  With self-loops, which \<open>load_graph_data\<close> keeps, the singleton partition can score
  above 0: two nodes with a self-loop each score \<open>1/2\<close>.
\<close>

lemma score_singleton_with_loops:
  "singleton_partition [(1 :: int, 0), (2, 1)] \<and> score two_loops [(1, 0), (2, 1)] = 1 / 2"
  by (simp add: singleton_partition_def score_def communities_def total_weight_def
      internal_weight_def total_degree_def members_def degree_def two_loops_def graph_eval
      power2_eq_square)

section \<open>Properties of the optimizer\<close>

lemma distinct_add_node:
  "distinct (g_node G) \<Longrightarrow> distinct (g_node (add_node_if_absent u G))"
  by (simp add: add_node_if_absent_def)

lemma distinct_add_edge: "distinct (g_node G) \<Longrightarrow> distinct (g_node (add_edge u v G))"
  by (simp add: add_edge_def Let_def distinct_add_node)

lemma distinct_add_edges_from:
  "distinct (g_node G) \<Longrightarrow> distinct (g_node (add_edges_from es G))"
proof (induction es arbitrary: G)
  case Nil
  then show ?case by simp
next
  case (Cons e es)
  obtain u v where e: "e = (u, v)" by (cases e)
  show ?case unfolding e add_edges_from.simps
    by (rule Cons.IH) (rule distinct_add_edge [OF Cons.prems])
qed

text \<open>The outer loop changes the communities of the membership, never its nodes.\<close>

lemma louvain_levels_keys:
  "map fst (louvain_levels visit g membership) = map fst membership"
proof (induction visit g membership rule: louvain_levels.induct)
  case (1 visit g membership)
  show ?case
  proof (cases "length (w_nodes g) \<le> 1")
    case True
    then show ?thesis by (subst louvain_levels.simps) simp
  next
    case small: False
    show ?thesis
    proof (cases "length (w_nodes (next_level visit g)) < length (w_nodes g)")
      case True
      have "map fst (louvain_levels visit g membership) =
              map fst (map (\<lambda>(v, s). (v, comm_of (level_assignment visit g) s)) membership)"
        using "1.IH" [OF small True] small True by (subst louvain_levels.simps) simp
      also have "\<dots> = map fst membership"
        by (simp add: split_def o_def)
      finally show ?thesis .
    next
      case False
      with small show ?thesis by (subst louvain_levels.simps) simp
    qed
  qed
qed

lemma node_ids_keys: "map fst (node_ids G) = sort (g_node G)"
  by (simp add: node_ids_def)

lemma louvain_with_order_keys: "map fst (louvain_with_order visit G) = sort (g_node G)"
  by (simp add: louvain_with_order_def louvain_levels_keys node_ids_keys)

text \<open>
  Claim C5. On a graph with at least one node, the optimizer returns a partition in
  which every node of the graph occurs exactly once and no other node occurs. It is the
  partition that \<open>detect_communities\<close> passes to the evaluator: the evaluator accepts it
  as covering the graph, so that the analysis fails only on a graph of total weight 0
  and otherwise reports the score and the number of communities of that partition.
\<close>

theorem louvain_partition_total:
  assumes "g_node G \<noteq> []" and "distinct (g_node G)"
  shows "\<exists>P. best_partition spec_louvain G = Inr P \<and>
             distinct (map fst P) \<and> set (map fst P) = set (g_node G) \<and>
             (\<forall>v \<in> set (g_node G). \<exists>!c. (v, c) \<in> set P) \<and>
             fst (detect_communities spec_louvain (Some G)) =
               [Call_best_partition G, Call_modularity P G] \<and>
             snd (detect_communities spec_louvain (Some G)) =
               (if total_weight G = 0
                then Inl (ValueError ''A graph without link has an undefined modularity'')
                else Inr \<lparr>modularity_score = score G P,
                          total_communities_detected = int (length (remdups (map snd P))),
                          total_nodes = int (length (g_node G))\<rparr>)"
proof -
  let ?P = "louvain_with_order ascending G"
  have run: "best_partition spec_louvain G = Inr ?P"
    using assms(1) by (simp add: spec_louvain_def louvain_run_def)
  have keys: "map fst ?P = sort (g_node G)" by (rule louvain_with_order_keys)
  have d: "distinct (map fst ?P)" unfolding keys using assms(2) by simp
  have s: "set (map fst ?P) = set (g_node G)" unfolding keys by simp
  have once: "\<exists>!c. (v, c) \<in> set ?P" if "v \<in> set (g_node G)" for v
  proof -
    from that s have "v \<in> fst ` set ?P" by simp
    then obtain c where c: "(v, c) \<in> set ?P" by force
    moreover have "c' = c" if "(v, c') \<in> set ?P" for c'
      using d c that by (meson eq_key_imp_eq_value)
    ultimately show ?thesis by blast
  qed
  have covered: "list_all (\<lambda>v. map_of ?P v \<noteq> None) (g_node G)"
    unfolding list_all_iff
  proof
    fix v assume "v \<in> set (g_node G)"
    with s have "v \<in> fst ` set ?P" by simp
    then show "map_of ?P v \<noteq> None" by (simp add: map_of_eq_None_iff)
  qed
  have eval: "modularity spec_louvain ?P G =
                (if total_weight G = 0
                 then Inl (ValueError ''A graph without link has an undefined modularity'')
                 else Inr (score G ?P))"
    using covered by (simp add: spec_louvain_def evaluate_modularity_def)
  have log: "fst (detect_communities spec_louvain (Some G)) =
               [Call_best_partition G, Call_modularity ?P G]"
    using assms(1) run by (simp add: detect_communities_def split: sum.splits)
  have res: "snd (detect_communities spec_louvain (Some G)) =
               (if total_weight G = 0
                then Inl (ValueError ''A graph without link has an undefined modularity'')
                else Inr \<lparr>modularity_score = score G ?P,
                          total_communities_detected = int (length (remdups (map snd ?P))),
                          total_nodes = int (length (g_node G))\<rparr>)"
    using assms(1) run eval by (simp add: detect_communities_def)
  from run d s once log res show ?thesis by blast
qed

theorem louvain_partition_total_witness:
  "(\<exists>P. best_partition spec_louvain triangle = Inr P \<and>
        distinct (map fst P) \<and> set (map fst P) = {1, 2, 3} \<and>
        fst (detect_communities spec_louvain (Some triangle)) =
          [Call_best_partition triangle, Call_modularity P triangle] \<and>
        snd (detect_communities spec_louvain (Some triangle)) =
          Inr \<lparr>modularity_score = score triangle P,
               total_communities_detected = int (length (remdups (map snd P))),
               total_nodes = 3\<rparr>) \<and>
   (\<exists>P. best_partition spec_louvain lone_station = Inr P \<and>
        distinct (map fst P) \<and> set (map fst P) = {1} \<and>
        snd (detect_communities spec_louvain (Some lone_station)) =
          Inl (ValueError ''A graph without link has an undefined modularity''))"
proof -
  have nodes: "g_node triangle = [1, 2, 3]"
    by (simp add: triangle_def graph_eval)
  have weight: "total_weight triangle = 3"
    by (simp add: total_weight_def triangle_def graph_eval)
  have nonempty: "g_node triangle \<noteq> []" and unique: "distinct (g_node triangle)"
    by (simp_all add: nodes)
  have first: "\<exists>P. best_partition spec_louvain triangle = Inr P \<and>
        distinct (map fst P) \<and> set (map fst P) = {1, 2, 3} \<and>
        fst (detect_communities spec_louvain (Some triangle)) =
          [Call_best_partition triangle, Call_modularity P triangle] \<and>
        snd (detect_communities spec_louvain (Some triangle)) =
          Inr \<lparr>modularity_score = score triangle P,
               total_communities_detected = int (length (remdups (map snd P))),
               total_nodes = 3\<rparr>"
    using louvain_partition_total [OF nonempty unique] unfolding nodes weight by auto
  have lone: "g_node lone_station = [1]" by (simp add: lone_station_def)
  have no_weight: "total_weight lone_station = 0"
    by (simp add: total_weight_def lone_station_def edges_def)
  have nonempty': "g_node lone_station \<noteq> []" and unique': "distinct (g_node lone_station)"
    by (simp_all add: lone)
  have second: "\<exists>P. best_partition spec_louvain lone_station = Inr P \<and>
        distinct (map fst P) \<and> set (map fst P) = {1} \<and>
        snd (detect_communities spec_louvain (Some lone_station)) =
          Inl (ValueError ''A graph without link has an undefined modularity'')"
    using louvain_partition_total [OF nonempty' unique'] unfolding lone no_weight by auto
  from first second show ?thesis by blast
qed

text \<open>
  Claim C1. \<open>detect_communities\<close> calls the optimizer with the graph alone, without a
  seed, so the order in which a run visits the nodes is not fixed by the program. The
  partition, and with it the result of \<open>detect_communities\<close>, depends on that order: on
  the graph \<open>five_stations\<close> a run that visits the nodes in ascending order ends with one
  community and a score of 0, a run that visits them in descending order with two
  communities and a score of \<open>1/9\<close>. Two runs on the same graph can therefore differ
  in partition, score and number of communities.
\<close>

theorem detect_communities_order_sensitive:
  "snd (detect_communities (louvain_visiting ascending) (Some five_stations)) =
     Inr \<lparr>modularity_score = 0, total_communities_detected = 1, total_nodes = 5\<rparr> \<and>
   snd (detect_communities (louvain_visiting descending) (Some five_stations)) =
     Inr \<lparr>modularity_score = 1 / 9, total_communities_detected = 2, total_nodes = 5\<rparr> \<and>
   louvain_with_order ascending five_stations = [(0, 3), (1, 3), (2, 3), (3, 3), (4, 3)] \<and>
   louvain_with_order descending five_stations = [(0, 0), (1, 0), (2, 2), (3, 2), (4, 0)]"
  by code_simp

end
